theory Spec2Isabelle
  imports Main
begin

section \<open>Strings\<close>

text \<open>
  JavaScript strings are modelled as \<open>string\<close> (character lists). The operations below
  are the ones \<^verbatim>\<open>packages/deno/scripts/build.ts\<close> applies to paths and specifiers.
\<close>

text \<open>\<^verbatim>\<open>s.startsWith(p)\<close>.\<close>

definition startsWith :: "string \<Rightarrow> string \<Rightarrow> bool" where
  "startsWith s p = (take (length p) s = p)"

text \<open>\<^verbatim>\<open>s.endsWith(p)\<close>.\<close>

definition endsWith :: "string \<Rightarrow> string \<Rightarrow> bool" where
  "endsWith s p = (length p \<le> length s \<and> drop (length s - length p) s = p)"

text \<open>
  \<^verbatim>\<open>s.replace(pat, rep)\<close> with a string pattern: only the first occurrence of the
  text \<open>pat\<close> is replaced, wherever it stands.
\<close>

fun replaceFirst :: "string \<Rightarrow> string \<Rightarrow> string \<Rightarrow> string" where
  "replaceFirst pat rep [] = (if pat = [] then rep else [])"
| "replaceFirst pat rep (c # cs) =
     (if startsWith (c # cs) pat then rep @ drop (length pat) (c # cs)
      else c # replaceFirst pat rep cs)"

text \<open>
  \<^verbatim>\<open>s.replace(/^([^\.])/, './$1')\<close>: when the string has a first character and that
  character is not a dot, \<^verbatim>\<open>./\<close> is put in front; the empty string and a string
  that starts with a dot are returned as they are.
\<close>

fun prefixDotSlash :: "string \<Rightarrow> string" where
  "prefixDotSlash [] = []"
| "prefixDotSlash (c # cs) = (if c \<noteq> CHR ''.'' then ''./'' @ c # cs else c # cs)"

section \<open>The POSIX \<^verbatim>\<open>path\<close> module of Node.js\<close>

text \<open>
  The script calls \<^verbatim>\<open>path.resolve\<close>, \<^verbatim>\<open>path.join\<close>, \<^verbatim>\<open>path.relative\<close> and
  \<^verbatim>\<open>path.dirname\<close>. They are library functions; their model works on the list of
  segments between slashes, which is what Node's character loop \<^verbatim>\<open>normalizeString\<close>
  computes.
\<close>

text \<open>\<^verbatim>\<open>s.split('/')\<close>: the pieces between slashes, empty pieces included.\<close>

fun splitSlash :: "string \<Rightarrow> string list" where
  "splitSlash [] = [[]]"
| "splitSlash (c # cs) =
     (if c = CHR ''/'' then [] # splitSlash cs
      else (case splitSlash cs of [] \<Rightarrow> [[c]] | s # ss \<Rightarrow> (c # s) # ss))"

text \<open>\<^verbatim>\<open>segs.join('/')\<close>.\<close>

fun joinSlash :: "string list \<Rightarrow> string" where
  "joinSlash [] = []"
| "joinSlash [s] = s"
| "joinSlash (s # t # ss) = s @ CHR ''/'' # joinSlash (t # ss)"

text \<open>
  One step of \<^verbatim>\<open>normalizeString\<close>, on the stack of segments kept so far (top first):
  an empty segment and \<^verbatim>\<open>.\<close> are skipped; \<^verbatim>\<open>..\<close> removes the segment on top
  unless the stack is empty or has \<^verbatim>\<open>..\<close> on top, where it is kept when
  \<open>allowAboveRoot\<close> holds and dropped otherwise; any other segment is pushed.
\<close>

fun normalizeStep :: "bool \<Rightarrow> string list \<Rightarrow> string \<Rightarrow> string list" where
  "normalizeStep allowAboveRoot st seg =
     (if seg = [] \<or> seg = ''.'' then st
      else if seg = ''..'' then
        (case st of
           [] \<Rightarrow> (if allowAboveRoot then [''..''] else [])
         | seg' # rest \<Rightarrow>
             (if seg' = ''..'' then (if allowAboveRoot then ''..'' # st else st)
              else rest))
      else seg # st)"

definition normalizeSegs :: "bool \<Rightarrow> string \<Rightarrow> string list" where
  "normalizeSegs allowAboveRoot p = rev (foldl (normalizeStep allowAboveRoot) [] (splitSlash p))"

definition normalizeString :: "string \<Rightarrow> bool \<Rightarrow> string" where
  "normalizeString p allowAboveRoot = joinSlash (normalizeSegs allowAboveRoot p)"

definition isAbsolute :: "string \<Rightarrow> bool" where
  "isAbsolute p = (p \<noteq> [] \<and> hd p = CHR ''/'')"

text \<open>
  The loop of \<^verbatim>\<open>path.resolve\<close>: the arguments are taken from the last to the first,
  then the working directory, until one of them is absolute; empty ones are skipped and
  each one taken is put in front, followed by a slash. The list given here is already in
  that order.
\<close>

fun resolveLoop :: "string list \<Rightarrow> string \<Rightarrow> string \<times> bool" where
  "resolveLoop [] acc = (acc, False)"
| "resolveLoop (p # ps) acc =
     (if p = [] then resolveLoop ps acc
      else if hd p = CHR ''/'' then (p @ CHR ''/'' # acc, True)
      else resolveLoop ps (p @ CHR ''/'' # acc))"

text \<open>\<^verbatim>\<open>path.resolve(...args)\<close>, with \<open>cwd\<close> the value of \<^verbatim>\<open>process.cwd()\<close>.\<close>

definition path_resolve :: "string \<Rightarrow> string list \<Rightarrow> string" where
  "path_resolve cwd args =
     (let (resolvedPath, resolvedAbsolute) = resolveLoop (rev args @ [cwd]) [];
          n = normalizeString resolvedPath (\<not> resolvedAbsolute)
      in if resolvedAbsolute then CHR ''/'' # n
         else if n \<noteq> [] then n else ''.'')"

text \<open>\<^verbatim>\<open>path.normalize(p)\<close>.\<close>

definition path_normalize :: "string \<Rightarrow> string" where
  "path_normalize p =
     (if p = [] then ''.''
      else
        let trailingSeparator = (last p = CHR ''/'');
            n = normalizeString p (\<not> isAbsolute p)
        in if n = [] then (if isAbsolute p then ''/'' else if trailingSeparator then ''./'' else ''.'')
           else
             let n' = (if trailingSeparator then n @ ''/'' else n)
             in if isAbsolute p then CHR ''/'' # n' else n')"

text \<open>\<^verbatim>\<open>path.join(...args)\<close>: the non-empty arguments joined by slashes, normalised.\<close>

definition path_join :: "string list \<Rightarrow> string" where
  "path_join args =
     (let parts = filter (\<lambda>a. a \<noteq> []) args
      in if parts = [] then ''.'' else path_normalize (joinSlash parts))"

text \<open>The longest common prefix of two segment lists is dropped from both.\<close>

fun dropCommon :: "string list \<Rightarrow> string list \<Rightarrow> string list \<times> string list" where
  "dropCommon (x # xs) (y # ys) = (if x = y then dropCommon xs ys else (x # xs, y # ys))"
| "dropCommon xs ys = (xs, ys)"

text \<open>
  \<^verbatim>\<open>path.relative(from, to)\<close>: both arguments are resolved against the working
  directory first; the result climbs out of what is left of \<open>from\<close> after the common
  segments and descends into what is left of \<open>to\<close>.
\<close>

definition path_relative :: "string \<Rightarrow> string \<Rightarrow> string \<Rightarrow> string" where
  "path_relative cwd from to =
     (if from = to then []
      else
        let from' = path_resolve cwd [from];
            to' = path_resolve cwd [to]
        in if from' = to' then []
           else
             let (up, down) = dropCommon (normalizeSegs False from') (normalizeSegs False to')
             in joinSlash (replicate (length up) ''..'' @ down))"

text \<open>
  The loop of \<^verbatim>\<open>path.dirname\<close>: the index runs down from the last character to
  index 1 and stops at the first slash that has a character other than a slash after it.
\<close>

fun dirnameScan :: "string \<Rightarrow> nat \<Rightarrow> bool \<Rightarrow> nat option" where
  "dirnameScan p 0 matchedSlash = None"
| "dirnameScan p (Suc i) matchedSlash =
     (if p ! Suc i = CHR ''/'' then
        (if \<not> matchedSlash then Some (Suc i) else dirnameScan p i matchedSlash)
      else dirnameScan p i False)"

text \<open>\<^verbatim>\<open>path.dirname(p)\<close>.\<close>

definition path_dirname :: "string \<Rightarrow> string" where
  "path_dirname p =
     (if p = [] then ''.''
      else
        (case dirnameScan p (length p - 1) True of
           None \<Rightarrow> (if isAbsolute p then ''/'' else ''.'')
         | Some e \<Rightarrow> (if isAbsolute p \<and> e = 1 then ''//'' else take e p)))"

section \<open>Configuration of \<^verbatim>\<open>build.ts\<close>\<close>

definition excludedPackages :: "string list" where
  "excludedPackages =
     [''converter'', ''deno'', ''plugin-example'', ''plugin-prisma'', ''plugin-prisma-crud'',
      ''test-utils'', ''plugin-federation'']"

definition excludedDirs :: "string list" where
  "excludedDirs = [''esm'', ''lib'', ''test'', ''tests'', ''node_modules'']"

definition excludedFiles :: "string list" where
  "excludedFiles =
     [''package.json'', ''tsconfig.json'', ''tsconfig.tsbuildinfo'', ''CHANGELOG.md'',
      ''.npmignore'', ''babel.config.js'']"

text \<open>The own properties of the object literal \<^verbatim>\<open>moduleMap\<close>.\<close>

definition moduleMap :: "(string \<times> string) list" where
  "moduleMap =
     [(''graphql'', ''https://cdn.skypack.dev/graphql?dts''),
      (''zod'', ''https://cdn.skypack.dev/zod@v1.11.17?dts''),
      (''dataloader'', ''https://cdn.skypack.dev/dataloader?dts''),
      (''@pothos/core'', ''./core/index.ts''),
      (''@pothos/plugin-directives'', ''./plugin-directives/index.ts''),
      (''graphql/execution/values'', ''https://cdn.skypack.dev/graphql/execution/values?dts'')]"

text \<open>
  \<^verbatim>\<open>moduleMap\<close> is a plain object, so \<^verbatim>\<open>moduleMap[mod]\<close> is a property read: an own
  property gives its string, a name that every object inherits from
  \<^verbatim>\<open>Object.prototype\<close> gives a function or an object, and any other name gives
  \<^verbatim>\<open>undefined\<close>.
\<close>

datatype jsvalue = Undefined | StringValue string | ObjectValue

definition objectPrototypeKeys :: "string list" where
  "objectPrototypeKeys =
     [''constructor'', ''__proto__'', ''hasOwnProperty'', ''isPrototypeOf'',
      ''propertyIsEnumerable'', ''toLocaleString'', ''toString'', ''valueOf'',
      ''__defineGetter__'', ''__defineSetter__'', ''__lookupGetter__'', ''__lookupSetter__'']"

definition moduleMapGet :: "string \<Rightarrow> jsvalue" where
  "moduleMapGet k =
     (case map_of moduleMap k of
        Some v \<Rightarrow> StringValue v
      | None \<Rightarrow> (if k \<in> set objectPrototypeKeys then ObjectValue else Undefined))"

fun truthy :: "jsvalue \<Rightarrow> bool" where
  "truthy Undefined = False"
| "truthy (StringValue s) = (s \<noteq> [])"
| "truthy ObjectValue = True"

section \<open>The host: working directory, script location, file system, compiler\<close>

text \<open>
  What \<^verbatim>\<open>statSync\<close> tells about an existing path; a path that does not exist has no
  stats.
\<close>

datatype stats = IsFile | IsDirectory

text \<open>
  One entry of a directory listing (\<^verbatim>\<open>readdir\<close> with \<^verbatim>\<open>withFileTypes\<close>): an
  entry for which \<^verbatim>\<open>isDirectory()\<close> is false, or a directory with its own listing.
\<close>

datatype dirent = FileEntry string | DirectoryEntry string "dirent list"

fun entryName :: "dirent \<Rightarrow> string" where
  "entryName (FileEntry n) = n"
| "entryName (DirectoryEntry n sub) = n"


text \<open>
  The syntax tree of the TypeScript compiler, as far as the transformer looks at it. The
  clauses of a declaration are kept as opaque text. An import declaration has its
  decorators, modifiers, import clause, module specifier and assert clause; an export
  declaration its decorators, modifiers, type-only flag, export clause, module specifier
  and assert clause; every other node has a kind and children.
\<close>

datatype expression =
    StringLiteral string bool
  | NoSubstitutionTemplateLiteral string
  | OtherExpression string

datatype node =
    ImportDeclaration "string list option" "string list option" "string option"
      expression "string option"
  | ExportDeclaration "string list option" "string list option" bool "string option"
      "expression option" "string option"
  | OtherNode string "node list"

fun isStringLiteralLike :: "expression \<Rightarrow> bool" where
  "isStringLiteralLike (StringLiteral t q) = True"
| "isStringLiteralLike (NoSubstitutionTemplateLiteral t) = True"
| "isStringLiteralLike (OtherExpression t) = False"

fun text_of :: "expression \<Rightarrow> string" where
  "text_of (StringLiteral t q) = t"
| "text_of (NoSubstitutionTemplateLiteral t) = t"
| "text_of (OtherExpression t) = t"

text \<open>
  The host of one run: \<^verbatim>\<open>process.cwd()\<close>, the script's \<^verbatim>\<open>__dirname\<close>, the answers of
  \<^verbatim>\<open>existsSync\<close> and \<^verbatim>\<open>statSync\<close>, the listing of the package directory, the
  file contents, the parser \<^verbatim>\<open>ts.createSourceFile\<close> and the printer. Every enumerated
  file is taken to be readable: a failing \<^verbatim>\<open>fs.readFile\<close> is not part of the model.
\<close>

record host =
  cwd :: string
  script_dirname :: string
  stat :: "string \<Rightarrow> stats option"
  packageDirListing :: "dirent list"
  readFile :: "string \<Rightarrow> string"
  createSourceFile :: "string \<Rightarrow> string \<Rightarrow> node"
  printFile :: "node \<Rightarrow> string"

definition existsSync :: "host \<Rightarrow> string \<Rightarrow> bool" where
  "existsSync h p = (stat h p \<noteq> None)"

definition packageDir :: "host \<Rightarrow> string" where
  "packageDir h = path_resolve (cwd h) [script_dirname h, ''../../'']"

definition targetDir :: "host \<Rightarrow> string" where
  "targetDir h = path_resolve (cwd h) [script_dirname h, ''../packages'']"

section \<open>The transformer\<close>

text \<open>
  \<^verbatim>\<open>new Error(...)\<close> thrown by the script, the \<^verbatim>\<open>TypeError\<close> of a call of something
  that is not a function, and the failure of \<^verbatim>\<open>readdir\<close> on a path that is no directory.
\<close>

datatype error = Error string | TypeError string | ENOTDIR string

text \<open>
  Lines 107 to 137 of \<^verbatim>\<open>importTransformer\<close>: the new text of the module specifier
  \<open>specifier\<close> (the variable \<^verbatim>\<open>mod\<close>) found in the file \<open>fileName\<close>, or the error thrown.
\<close>

definition rewriteSpecifier :: "host \<Rightarrow> string \<Rightarrow> string \<Rightarrow> error + string" where
  "rewriteSpecifier h fileName specifier =
     (let dirName = path_dirname fileName
      in if startsWith specifier ''.'' then
           let modulePath = path_resolve (cwd h) [dirName, specifier];
               tsPath = modulePath @ ''.ts'';
               dtsPath = modulePath @ ''.d.ts''
           in (case (if existsSync h modulePath \<and> stat h modulePath = Some IsDirectory
                       then Inr (path_join [modulePath, ''index.ts''])
                     else if existsSync h tsPath then Inr tsPath
                     else if existsSync h dtsPath then Inr dtsPath
                     else if \<not> existsSync h modulePath
                       then Inl (Error (''Unable to resolve modulePath '' @ modulePath))
                     else Inr specifier) of
                 Inl e \<Rightarrow> Inl e
               | Inr target \<Rightarrow> Inr (prefixDotSlash (path_relative (cwd h) dirName target)))
         else if truthy (moduleMapGet specifier) then
           (case moduleMapGet specifier of
              StringValue newMod \<Rightarrow>
                (if startsWith newMod ''.'' then
                   Inr (path_relative (cwd h) (replaceFirst ''/src'' [] dirName)
                          (path_resolve (cwd h) [packageDir h, newMod]))
                 else Inr newMod)
            | _ \<Rightarrow> Inl (TypeError ''newMod.startsWith is not a function''))
         else Inl (Error (''Unknown module '' @ specifier @ '' in '' @ fileName)))"

text \<open>
  The visitor. A declaration with a string-literal specifier is rebuilt by
  \<^verbatim>\<open>updateImportDeclaration\<close> or \<^verbatim>\<open>updateExportDeclaration\<close> from the fields of the
  node, the new single-quoted literal, and \<^verbatim>\<open>undefined\<close> in the last position, which is
  the assert clause. Every other node goes through \<^verbatim>\<open>ts.visitEachChild\<close>; for an
  import or export declaration without a string-literal specifier this returns the node,
  since its clauses are kept as text and hold no declaration to visit.
\<close>

fun visitor :: "host \<Rightarrow> string \<Rightarrow> node \<Rightarrow> error + node"
  and visitEachChild :: "host \<Rightarrow> string \<Rightarrow> node list \<Rightarrow> error + node list" where
  "visitor h fileName (ImportDeclaration decorators modifiers importClause moduleSpecifier assertClause) =
     (if isStringLiteralLike moduleSpecifier then
        (case rewriteSpecifier h fileName (text_of moduleSpecifier) of
           Inl e \<Rightarrow> Inl e
         | Inr specifier \<Rightarrow>
             Inr (ImportDeclaration decorators modifiers importClause (StringLiteral specifier True) None))
      else Inr (ImportDeclaration decorators modifiers importClause moduleSpecifier assertClause))"
| "visitor h fileName (ExportDeclaration decorators modifiers isTypeOnly exportClause moduleSpecifier assertClause) =
     (case moduleSpecifier of
        None \<Rightarrow>
          Inr (ExportDeclaration decorators modifiers isTypeOnly exportClause moduleSpecifier assertClause)
      | Some spec \<Rightarrow>
          (if isStringLiteralLike spec then
             (case rewriteSpecifier h fileName (text_of spec) of
                Inl e \<Rightarrow> Inl e
              | Inr specifier \<Rightarrow>
                  Inr (ExportDeclaration decorators modifiers isTypeOnly exportClause
                         (Some (StringLiteral specifier True)) None))
           else
             Inr (ExportDeclaration decorators modifiers isTypeOnly exportClause moduleSpecifier
                    assertClause)))"
| "visitor h fileName (OtherNode kind children) =
     (case visitEachChild h fileName children of
        Inl e \<Rightarrow> Inl e
      | Inr children' \<Rightarrow> Inr (OtherNode kind children'))"
| "visitEachChild h fileName [] = Inr []"
| "visitEachChild h fileName (n # ns) =
     (case visitor h fileName n of
        Inl e \<Rightarrow> Inl e
      | Inr n' \<Rightarrow>
          (case visitEachChild h fileName ns of
             Inl e \<Rightarrow> Inl e
           | Inr ns' \<Rightarrow> Inr (n' # ns')))"

text \<open>\<^verbatim>\<open>importTransformer\<close> applied to the source file \<open>fileName\<close> with root \<open>sourceFile\<close>.\<close>

definition importTransformer :: "host \<Rightarrow> string \<Rightarrow> node \<Rightarrow> error + node" where
  "importTransformer h fileName sourceFile = visitor h fileName sourceFile"

section \<open>Enumeration, loading and the build\<close>

record LoadedFile =
  path :: string
  content :: string

definition modFile :: string where
  "modFile =
     ''import Default from '' @ [CHR 0x27] @ ''./index.ts'' @ [CHR 0x27] @ '';'' @ [CHR 0x0A] @
     ''export * from '' @ [CHR 0x27] @ ''./index.ts'' @ [CHR 0x27] @ '';'' @ [CHR 0x0A] @
     ''export default Default;'' @ [CHR 0x0A]"

text \<open>
  \<^verbatim>\<open>getFiles(dir, root)\<close>, with \<open>results\<close> the listing of \<open>dir\<close>: excluded file names
  are dropped at every level, excluded directory names at the root only; a directory is
  entered, anything else is returned with its full path.
\<close>

fun getFiles :: "string \<Rightarrow> bool \<Rightarrow> dirent list \<Rightarrow> string list" where
  "getFiles dir root results =
     concat (map (\<lambda>entry.
                    (case entry of
                       DirectoryEntry n sub \<Rightarrow> getFiles (path_join [dir, n]) False sub
                     | FileEntry n \<Rightarrow> [path_join [dir, n]]))
               (filter (\<lambda>entry. entryName entry \<notin> set excludedFiles \<and>
                                  (\<not> root \<or> entryName entry \<notin> set excludedDirs))
                  results))"

text \<open>\<^verbatim>\<open>getPackages()\<close>: the names listed in the package directory, filtered.\<close>

definition getPackages :: "host \<Rightarrow> string list" where
  "getPackages h =
     filter (\<lambda>entry. entry \<notin> set excludedPackages) (map entryName (packageDirListing h))"

text \<open>\<^verbatim>\<open>loadFile(file)\<close>.\<close>

definition newPath :: "host \<Rightarrow> string \<Rightarrow> string" where
  "newPath h file =
     replaceFirst ''/src'' []
       (path_resolve (cwd h) [targetDir h, path_relative (cwd h) (packageDir h) file])"

definition loadFile :: "host \<Rightarrow> string \<Rightarrow> error + LoadedFile" where
  "loadFile h file =
     (if endsWith file ''.ts'' then
        (case importTransformer h file (createSourceFile h file (readFile h file)) of
           Inl e \<Rightarrow> Inl e
         | Inr transformed \<Rightarrow>
             Inr \<lparr>path = newPath h file,
                  content = ''// @ts-nocheck'' @ [CHR 0x0A] @ printFile h transformed\<rparr>)
      else Inr \<lparr>path = newPath h file, content = readFile h file\<rparr>)"

text \<open>
  \<^verbatim>\<open>Promise.all(xs.map(f))\<close>: all results in the order of \<open>xs\<close>, or an error when one
  of them fails. The run rejects with the failure that comes first in time; the model
  reports the first one in the order of \<open>xs\<close>, so only the fact of a failure, not which
  error it is, is taken from it.
\<close>

fun promiseAll :: "('a \<Rightarrow> error + 'b) \<Rightarrow> 'a list \<Rightarrow> error + 'b list" where
  "promiseAll f [] = Inr []"
| "promiseAll f (x # xs) =
     (case f x of
        Inl e \<Rightarrow> Inl e
      | Inr y \<Rightarrow> (case promiseAll f xs of Inl e \<Rightarrow> Inl e | Inr ys \<Rightarrow> Inr (y # ys)))"

text \<open>
  The listing of one package for \<^verbatim>\<open>getFiles(path.join(packageDir, dir), true)\<close>; reading
  a name that is no directory fails.
\<close>

definition packageFiles :: "host \<Rightarrow> string \<Rightarrow> error + string list" where
  "packageFiles h dir =
     (case find (\<lambda>entry. entryName entry = dir) (packageDirListing h) of
        Some (DirectoryEntry n sub) \<Rightarrow> Inr (getFiles (path_join [packageDir h, dir]) True sub)
      | _ \<Rightarrow> Inl (ENOTDIR (path_join [packageDir h, dir])))"

text \<open>\<^verbatim>\<open>getAllFiles()\<close>.\<close>

definition getAllFiles :: "host \<Rightarrow> error + LoadedFile list" where
  "getAllFiles h =
     (let projects = getPackages h
      in (case promiseAll (packageFiles h) projects of
            Inl e \<Rightarrow> Inl e
          | Inr results \<Rightarrow>
              let files = concat results;
                  modFiles = map (\<lambda>dir. \<lparr>path = path_join [targetDir h, dir, ''mod.ts''],
                                          content = modFile\<rparr>) projects
              in (case promiseAll (loadFile h) files of
                    Inl e \<Rightarrow> Inl e
                  | Inr loaded \<Rightarrow> Inr (loaded @ modFiles))))"

text \<open>What a run does to the output side of the file system.\<close>

datatype effect = Rm string | Mkdir string | WriteFile string string

text \<open>
  \<^verbatim>\<open>build()\<close>: the outcome and the effects issued. The output root is removed first;
  directories are made and files written only after \<^verbatim>\<open>getAllFiles\<close> has returned.
  Each callback of \<^verbatim>\<open>files.map\<close> runs up to its first \<^verbatim>\<open>await\<close>, so the \<^verbatim>\<open>mkdir\<close> of
  every file is issued before the first \<^verbatim>\<open>writeFile\<close>; the writes are listed in the
  order of the files, the run itself leaves their order open.
\<close>

definition build :: "host \<Rightarrow> (error + unit) \<times> effect list" where
  "build h =
     (let removed = [Rm (targetDir h)]
      in (case getAllFiles h of
            Inl e \<Rightarrow> (Inl e, removed)
          | Inr files \<Rightarrow>
              (Inr (),
               removed @
               map (\<lambda>file. Mkdir (path_dirname (path file))) files @
               map (\<lambda>file. WriteFile (path file) (content file)) files)))"

section \<open>Notions used to state the properties\<close>

text \<open>\<^verbatim>\<open>s.includes(sub)\<close>: the text \<open>sub\<close> occurs in \<open>s\<close>.\<close>

fun includesText :: "string \<Rightarrow> string \<Rightarrow> bool" where
  "includesText [] sub = (sub = [])"
| "includesText (c # cs) sub = (startsWith (c # cs) sub \<or> includesText cs sub)"

text \<open>
  A segment that \<^verbatim>\<open>normalizeString\<close> keeps as it is, and a path in the form that
  \<^verbatim>\<open>path.resolve\<close> returns: a slash followed by such segments, joined by slashes.
\<close>

definition properSegment :: "string \<Rightarrow> bool" where
  "properSegment s = (s \<noteq> [] \<and> s \<noteq> ''.'' \<and> s \<noteq> ''..'' \<and> CHR ''/'' \<notin> set s)"

definition resolvedForm :: "string \<Rightarrow> bool" where
  "resolvedForm p = (isAbsolute p \<and> list_all properSegment (normalizeSegs False p) \<and>
                     p = CHR ''/'' # joinSlash (normalizeSegs False p))"




text \<open>
  The texts of the string-literal specifiers of the import and export declarations of a
  tree, in the order in which the visitor meets them.
\<close>

fun specifiers :: "node \<Rightarrow> string list" where
  "specifiers (ImportDeclaration d m c spec a) =
     (if isStringLiteralLike spec then [text_of spec] else [])"
| "specifiers (ExportDeclaration d m t c None a) = []"
| "specifiers (ExportDeclaration d m t c (Some spec) a) =
     (if isStringLiteralLike spec then [text_of spec] else [])"
| "specifiers (OtherNode k children) = concat (map specifiers children)"




section \<open>A concrete host\<close>

text \<open>
  The repository checked out at \<^verbatim>\<open>/repo\<close>, the script run from \<^verbatim>\<open>packages/deno\<close>,
  and one package \<^verbatim>\<open>core\<close> whose \<^verbatim>\<open>src/index.ts\<close> imports \<^verbatim>\<open>left-pad\<close>.
\<close>

definition demoStat :: "string \<Rightarrow> stats option" where
  "demoStat p =
     (if p = ''/repo/packages/core/src/helpers'' then Some IsDirectory
      else if p = ''/repo/packages/core/src/helpers.ts'' then Some IsFile
      else if p = ''/repo/packages/core/src/util.ts'' then Some IsFile
      else if p = ''/repo/packages/core/src/util.d.ts'' then Some IsFile
      else if p = ''/repo/packages/core/src/types.d.ts'' then Some IsFile
      else if p = ''/repo/packages/core/src/schema.json'' then Some IsFile
      else None)"

definition demoSource :: node where
  "demoSource =
     OtherNode ''SourceFile''
       [ImportDeclaration None None (Some ''pad'') (StringLiteral ''left-pad'' False) None]"

definition demoHost :: host where
  "demoHost =
     \<lparr>cwd = ''/repo/packages/deno'',
      script_dirname = ''/repo/packages/deno/scripts'',
      stat = demoStat,
      packageDirListing =
        [DirectoryEntry ''core''
           [FileEntry ''package.json'',
            DirectoryEntry ''src'' [FileEntry ''index.ts'', FileEntry ''schema.json'']]],
      readFile = (\<lambda>file. ''import pad from '' @ [CHR 0x27] @ ''left-pad'' @ [CHR 0x27] @ '';''),
      createSourceFile = (\<lambda>file text. demoSource),
      printFile = (\<lambda>n. [])\<rparr>"







text \<open>The same host with the repository checked out below a directory named \<^verbatim>\<open>src\<close>.\<close>

definition srcCheckoutHost :: host where
  "srcCheckoutHost =
     demoHost\<lparr>cwd := ''/home/dev/src/pothos/packages/deno'',
               script_dirname := ''/home/dev/src/pothos/packages/deno/scripts''\<rparr>"

section \<open>Bare specifiers found in the mapping\<close>

lemma moduleMap_values_nonempty: "map_of moduleMap k = Some v \<Longrightarrow> v \<noteq> []"
  by (auto simp: moduleMap_def split: if_splits)

lemma moduleMapGet_own:
  assumes "map_of moduleMap k = Some v"
  shows "moduleMapGet k = StringValue v" and "truthy (moduleMapGet k)"
  using assms moduleMap_values_nonempty [OF assms] by (simp_all add: moduleMapGet_def)

text \<open>
  C6. A specifier that does not start with a dot and is a key of \<^verbatim>\<open>moduleMap\<close> whose value
  does not start with a dot (an external URL) is rewritten to that value, character for
  character, whatever the referencing file and the file system are.
\<close>

theorem mapped_external_verbatim:
  assumes "\<not> startsWith specifier ''.''"
    and "map_of moduleMap specifier = Some v"
    and "\<not> startsWith v ''.''"
  shows "rewriteSpecifier h fileName specifier = Inr v"
  unfolding rewriteSpecifier_def
  using assms(1,3) moduleMapGet_own [OF assms(2)] by (simp add: Let_def)

theorem mapped_external_verbatim_witness:
  "\<not> startsWith ''graphql'' ''.'' \<and>
   map_of moduleMap ''graphql'' = Some ''https://cdn.skypack.dev/graphql?dts'' \<and>
   \<not> startsWith ''https://cdn.skypack.dev/graphql?dts'' ''.'' \<and>
   rewriteSpecifier demoHost ''/repo/packages/core/src/index.ts'' ''graphql'' =
     Inr ''https://cdn.skypack.dev/graphql?dts''"
proof -
  have a: "\<not> startsWith ''graphql'' ''.''"
    by (simp add: startsWith_def)
  have b: "map_of moduleMap ''graphql'' = Some ''https://cdn.skypack.dev/graphql?dts''"
    by (simp add: moduleMap_def)
  have c: "\<not> startsWith ''https://cdn.skypack.dev/graphql?dts'' ''.''"
    by (simp add: startsWith_def)
  show ?thesis
    by (intro conjI a b c mapped_external_verbatim [OF a b c])
qed

section \<open>The write phase starts after every transform\<close>

lemma promiseAll_fails:
  "x \<in> set xs \<Longrightarrow> f x = Inl e \<Longrightarrow> \<exists>e'. promiseAll f xs = Inl e'"
  by (induction xs) (auto split: sum.splits)

lemma failed_specifier_fails_visitor:
  "s \<in> set (specifiers n) \<Longrightarrow> rewriteSpecifier h f s = Inl e \<Longrightarrow> \<exists>e'. visitor h f n = Inl e'"
  "s \<in> set (concat (map specifiers ns)) \<Longrightarrow> rewriteSpecifier h f s = Inl e \<Longrightarrow>
   \<exists>e'. visitEachChild h f ns = Inl e'"
proof (induction h f n and h f ns rule: visitor_visitEachChild.induct)
  case (1 h fileName decorators modifiers importClause moduleSpecifier assertClause)
  then show ?case by (auto split: if_splits)
next
  case (2 h fileName decorators modifiers isTypeOnly exportClause moduleSpecifier assertClause)
  then show ?case by (cases moduleSpecifier) (auto split: if_splits)
next
  case (3 h fileName kind children)
  then show ?case by auto
next
  case (4 h fileName)
  then show ?case by simp
next
  case (5 h fileName n ns)
  show ?case
  proof (cases "visitor h fileName n")
    case (Inl e1)
    then show ?thesis by simp
  next
    case (Inr n')
    with "5.IH"(1) "5.prems"(2) have "s \<notin> set (specifiers n)"
      by auto
    with "5.prems"(1) have "s \<in> set (concat (map specifiers ns))"
      by auto
    with "5.IH"(2) [OF Inr] "5.prems"(2) obtain e2 where "visitEachChild h fileName ns = Inl e2"
      by blast
    with Inr show ?thesis by simp
  qed
qed

text \<open>
  C10. When the packages have been listed and, in one enumerated \<^verbatim>\<open>.ts\<close> file, the
  resolution of one specifier of an import or export declaration fails, \<^verbatim>\<open>build\<close> fails
  and the only effect it has issued is the removal of the output root: no directory is
  made and no file is written, for this file or for any other.
\<close>

theorem failed_resolution_writes_nothing:
  assumes "promiseAll (packageFiles h) (getPackages h) = Inr results"
    and "file \<in> set (concat results)"
    and "endsWith file ''.ts''"
    and "specifier \<in> set (specifiers (createSourceFile h file (readFile h file)))"
    and "rewriteSpecifier h file specifier = Inl e"
  shows "\<exists>e'. build h = (Inl e', [Rm (targetDir h)])"
proof -
  from failed_specifier_fails_visitor(1) [OF assms(4,5)]
  obtain e1 where "importTransformer h file (createSourceFile h file (readFile h file)) = Inl e1"
    unfolding importTransformer_def ..
  with assms(3) have failed: "loadFile h file = Inl e1"
    by (simp add: loadFile_def)
  from promiseAll_fails [of "file" "concat results" "loadFile h" e1, OF assms(2) failed]
  obtain e' where "promiseAll (loadFile h) (concat results) = Inl e'" ..
  with assms(1) have "getAllFiles h = Inl e'"
    by (simp add: getAllFiles_def)
  then show ?thesis
    by (simp add: build_def)
qed

theorem failed_resolution_writes_nothing_witness:
  "promiseAll (packageFiles demoHost) (getPackages demoHost) =
     Inr [[''/repo/packages/core/src/index.ts'', ''/repo/packages/core/src/schema.json'']] \<and>
   endsWith ''/repo/packages/core/src/index.ts'' ''.ts'' \<and>
   specifiers (createSourceFile demoHost ''/repo/packages/core/src/index.ts''
        (readFile demoHost ''/repo/packages/core/src/index.ts'')) = [''left-pad''] \<and>
   rewriteSpecifier demoHost ''/repo/packages/core/src/index.ts'' ''left-pad'' =
     Inl (Error ''Unknown module left-pad in /repo/packages/core/src/index.ts'') \<and>
   snd (build demoHost) = [Rm ''/repo/packages/deno/packages''] \<and>
   isl (fst (build demoHost))"
proof -
  have a: "promiseAll (packageFiles demoHost) (getPackages demoHost) =
     Inr [[''/repo/packages/core/src/index.ts'', ''/repo/packages/core/src/schema.json'']]"
    by code_simp
  have b: "''/repo/packages/core/src/index.ts'' \<in>
     set (concat [[''/repo/packages/core/src/index.ts'', ''/repo/packages/core/src/schema.json'']])"
    by simp
  have c: "endsWith ''/repo/packages/core/src/index.ts'' ''.ts''"
    by code_simp
  have d: "specifiers (createSourceFile demoHost ''/repo/packages/core/src/index.ts''
        (readFile demoHost ''/repo/packages/core/src/index.ts'')) = [''left-pad'']"
    by code_simp
  then have d': "''left-pad'' \<in> set (specifiers (createSourceFile demoHost
        ''/repo/packages/core/src/index.ts'' (readFile demoHost ''/repo/packages/core/src/index.ts'')))"
    by simp
  have e: "rewriteSpecifier demoHost ''/repo/packages/core/src/index.ts'' ''left-pad'' =
     Inl (Error ''Unknown module left-pad in /repo/packages/core/src/index.ts'')"
    by code_simp
  have t: "targetDir demoHost = ''/repo/packages/deno/packages''"
    by code_simp
  from failed_resolution_writes_nothing [OF a b c d' e]
  obtain e' where "build demoHost = (Inl e', [Rm (targetDir demoHost)])" ..
  then have s: "snd (build demoHost) = [Rm ''/repo/packages/deno/packages'']"
    and f: "isl (fst (build demoHost))"
    by (simp_all add: t)
  show ?thesis
    by (intro conjI a c d e s f)
qed

section \<open>Package discovery\<close>




section \<open>What the visitor keeps of a node\<close>








section \<open>Inputs on which the script departs from its specification\<close>

text \<open>
  C2. \<^verbatim>\<open>@pothos/core\<close> is mapped to the relative value \<^verbatim>\<open>./core/index.ts\<close>. Imported
  from a file of the \<^verbatim>\<open>core\<close> package itself, it is rewritten to \<^verbatim>\<open>index.ts\<close>, which
  does not start with a dot: this branch does not put \<^verbatim>\<open>./\<close> in front, as the branch
  for relative specifiers does.
\<close>

theorem mapped_relative_without_marker:
  "map_of moduleMap ''@pothos/core'' = Some ''./core/index.ts'' \<and>
   rewriteSpecifier demoHost ''/repo/packages/core/src/index.ts'' ''@pothos/core'' =
     Inr ''index.ts'' \<and>
   \<not> startsWith ''index.ts'' ''.''"
  by code_simp

text \<open>
  What the branch for relative specifiers does when no directory, no \<^verbatim>\<open>.ts\<close> and no
  \<^verbatim>\<open>.d.ts\<close> candidate exists: with a file at the resolved path the specifier itself,
  not the resolved path, is made relative; with nothing there the error is thrown.
\<close>

lemma exact_file_specifier:
  assumes "startsWith specifier ''.''"
    and "stat h (path_resolve (cwd h) [path_dirname fileName, specifier]) \<noteq> Some IsDirectory"
    and "\<not> existsSync h (path_resolve (cwd h) [path_dirname fileName, specifier] @ ''.ts'')"
    and "\<not> existsSync h (path_resolve (cwd h) [path_dirname fileName, specifier] @ ''.d.ts'')"
    and "existsSync h (path_resolve (cwd h) [path_dirname fileName, specifier])"
  shows "rewriteSpecifier h fileName specifier =
         Inr (prefixDotSlash (path_relative (cwd h) (path_dirname fileName) specifier))"
  using assms by (simp add: rewriteSpecifier_def Let_def existsSync_def)

lemma unresolved_relative_specifier:
  assumes "startsWith specifier ''.''"
    and "\<not> existsSync h (path_resolve (cwd h) [path_dirname fileName, specifier] @ ''.ts'')"
    and "\<not> existsSync h (path_resolve (cwd h) [path_dirname fileName, specifier] @ ''.d.ts'')"
    and "\<not> existsSync h (path_resolve (cwd h) [path_dirname fileName, specifier])"
  shows "rewriteSpecifier h fileName specifier =
         Inl (Error (''Unable to resolve modulePath '' @
                     path_resolve (cwd h) [path_dirname fileName, specifier]))"
  using assms by (simp add: rewriteSpecifier_def Let_def existsSync_def)

text \<open>
  C3. \<^verbatim>\<open>./schema.json\<close> names an existing file beside the referencing file and has no
  \<^verbatim>\<open>.ts\<close> or \<^verbatim>\<open>.d.ts\<close> candidate. The specifier is left as it is and then handed to
  \<^verbatim>\<open>path.relative\<close>, which resolves it against the working directory: the emitted
  specifier leads to \<^verbatim>\<open>/repo/packages/deno/schema.json\<close>, another path than the file
  that was found.
\<close>

theorem exact_file_resolved_against_cwd:
  "stat demoHost ''/repo/packages/core/src/schema.json'' = Some IsFile \<and>
   stat demoHost ''/repo/packages/core/src/schema.json.ts'' = None \<and>
   stat demoHost ''/repo/packages/core/src/schema.json.d.ts'' = None \<and>
   path_resolve (cwd demoHost)
     [path_dirname ''/repo/packages/core/src/index.ts'', ''./schema.json''] =
     ''/repo/packages/core/src/schema.json'' \<and>
   rewriteSpecifier demoHost ''/repo/packages/core/src/index.ts'' ''./schema.json'' =
     Inr ''../../deno/schema.json'' \<and>
   path_resolve (cwd demoHost)
     [path_dirname ''/repo/packages/core/src/index.ts'', ''../../deno/schema.json''] =
     ''/repo/packages/deno/schema.json''"
  by code_simp

text \<open>
  C4. For a relative specifier with no candidate the error is thrown, but its message
  holds the resolved path only: neither the specifier as written nor the name of the
  referencing file occurs in it.
\<close>

theorem unresolved_relative_message:
  "rewriteSpecifier demoHost ''/repo/packages/core/src/index.ts'' ''./missing'' =
     Inl (Error ''Unable to resolve modulePath /repo/packages/core/src/missing'') \<and>
   \<not> includesText ''Unable to resolve modulePath /repo/packages/core/src/missing''
       ''./missing'' \<and>
   \<not> includesText ''Unable to resolve modulePath /repo/packages/core/src/missing''
       ''/repo/packages/core/src/index.ts'' \<and>
   \<not> includesText ''Unable to resolve modulePath /repo/packages/core/src/missing''
       ''index.ts''"
  by code_simp

text \<open>
  A specifier that does not start with a dot, is no key of \<^verbatim>\<open>moduleMap\<close> and is not the
  name of an inherited property is refused with a message that names it and the file.
\<close>

lemma unknown_bare_specifier:
  assumes "\<not> startsWith specifier ''.''"
    and "map_of moduleMap specifier = None"
    and "specifier \<notin> set objectPrototypeKeys"
  shows "rewriteSpecifier h fileName specifier =
         Inl (Error (''Unknown module '' @ specifier @ '' in '' @ fileName))"
  using assms by (simp add: rewriteSpecifier_def Let_def moduleMapGet_def)

text \<open>
  C5. \<^verbatim>\<open>constructor\<close> is not a key of \<^verbatim>\<open>moduleMap\<close>, but every object inherits a
  property of that name, so \<^verbatim>\<open>moduleMap[mod]\<close> is truthy and the call of
  \<^verbatim>\<open>startsWith\<close> on it throws a \<^verbatim>\<open>TypeError\<close> that names neither the specifier nor
  the file.
\<close>

theorem inherited_name_not_reported:
  "\<not> startsWith ''constructor'' ''.'' \<and>
   map_of moduleMap ''constructor'' = None \<and>
   rewriteSpecifier demoHost ''/repo/packages/core/src/index.ts'' ''constructor'' =
     Inl (TypeError ''newMod.startsWith is not a function'')"
  by code_simp

text \<open>
  C7. The first occurrence of the text \<^verbatim>\<open>/src\<close> is cut out of the mirrored path,
  whether or not it is a whole segment: a directory \<^verbatim>\<open>srcgen\<close> of the package
  \<^verbatim>\<open>core\<close> is written to \<^verbatim>\<open>coregen\<close>, and in a checkout below a directory named
  \<^verbatim>\<open>src\<close> the output leaves the output root and keeps the \<^verbatim>\<open>src\<close> segment of the
  package.
\<close>

theorem newPath_cuts_first_occurrence:
  "targetDir demoHost = ''/repo/packages/deno/packages'' \<and>
   newPath demoHost ''/repo/packages/core/srcgen/a.ts'' =
     ''/repo/packages/deno/packages/coregen/a.ts'' \<and>
   targetDir srcCheckoutHost = ''/home/dev/src/pothos/packages/deno/packages'' \<and>
   newPath srcCheckoutHost ''/home/dev/src/pothos/packages/core/src/index.ts'' =
     ''/home/dev/pothos/packages/deno/packages/core/src/index.ts''"
  by code_simp

section \<open>Paths: splitting, joining and normalising\<close>

lemma splitSlash_not_Nil [simp]: "splitSlash s \<noteq> []"
  by (induction s) (auto split: list.splits)

lemma splitSlash_append: "splitSlash (a @ CHR ''/'' # b) = splitSlash a @ splitSlash b"
proof (induction a)
  case Nil
  show ?case by simp
next
  case (Cons c a)
  obtain s ss where "splitSlash a = s # ss"
    by (cases "splitSlash a") simp_all
  with Cons show ?case by simp
qed

lemma splitSlash_slash_free: "CHR ''/'' \<notin> set s \<Longrightarrow> splitSlash s = [s]"
  by (induction s) auto

lemma splitSlash_joinSlash:
  "segs \<noteq> [] \<Longrightarrow> \<forall>s\<in>set segs. CHR ''/'' \<notin> set s \<Longrightarrow> splitSlash (joinSlash segs) = segs"
proof (induction segs rule: joinSlash.induct)
  case 1
  then show ?case by simp
next
  case (2 s)
  then show ?case by (simp add: splitSlash_slash_free)
next
  case (3 s t ss)
  then show ?case by (simp add: splitSlash_append splitSlash_slash_free)
qed

lemma joinSlash_snoc:
  "segs \<noteq> [] \<Longrightarrow> joinSlash (segs @ [s]) = joinSlash segs @ CHR ''/'' # s"
  by (induction segs rule: joinSlash.induct) simp_all

lemma joinSlash_snoc_append:
  "joinSlash (segs @ [s]) @ ext = joinSlash (segs @ [s @ ext])"
  by (induction segs rule: joinSlash.induct) simp_all

lemma joinSlash_first:
  "s \<noteq> [] \<Longrightarrow> joinSlash (s # ss) \<noteq> [] \<and> hd (joinSlash (s # ss)) = hd s"
  by (cases ss) simp_all

lemma properSegment_step: "properSegment s \<Longrightarrow> normalizeStep a st s = s # st"
  by (simp add: properSegment_def)

lemma skipped_step: "s = [] \<or> s = ''.'' \<Longrightarrow> normalizeStep a st s = st"
  by auto

lemma dotdot_step: "properSegment x \<Longrightarrow> normalizeStep a (x # st) ''..'' = st"
  by (simp add: properSegment_def)

lemma foldl_proper:
  "list_all properSegment xs \<Longrightarrow> foldl (normalizeStep a) st xs = rev xs @ st"
  by (induction xs arbitrary: st) (simp_all add: properSegment_step del: normalizeStep.simps)

lemma foldl_dotdot:
  "list_all properSegment up \<Longrightarrow>
   foldl (normalizeStep a) (rev up @ st) (replicate (length up) ''..'') = st"
proof (induction up rule: rev_induct)
  case Nil
  show ?case by simp
next
  case (snoc x xs)
  then have "properSegment x" and "list_all properSegment xs"
    by simp_all
  with snoc.IH show ?case
    by (simp add: dotdot_step del: normalizeStep.simps)
qed

lemma step_keeps_proper:
  assumes "list_all properSegment st" and "CHR ''/'' \<notin> set s"
  shows "list_all properSegment (normalizeStep False st s)"
proof (cases st)
  case Nil
  with assms show ?thesis by (simp add: properSegment_def)
next
  case (Cons x rest)
  with assms show ?thesis by (simp add: properSegment_def)
qed

lemma foldl_keeps_proper:
  "list_all properSegment st \<Longrightarrow> \<forall>s\<in>set segs. CHR ''/'' \<notin> set s \<Longrightarrow>
   list_all properSegment (foldl (normalizeStep False) st segs)"
proof (induction segs arbitrary: st)
  case Nil
  then show ?case by simp
next
  case (Cons s segs)
  from Cons.prems have "list_all properSegment (normalizeStep False st s)"
    by (intro step_keeps_proper) simp_all
  with Cons show ?case
    by (simp del: normalizeStep.simps)
qed

lemma splitSlash_pieces: "s \<in> set (splitSlash p) \<Longrightarrow> CHR ''/'' \<notin> set s"
proof (induction p arbitrary: s)
  case Nil
  then show ?case by simp
next
  case (Cons c p)
  obtain t ts where split: "splitSlash p = t # ts"
    by (cases "splitSlash p") simp_all
  show ?case
  proof (cases "c = CHR ''/''")
    case True
    with Cons show ?thesis by auto
  next
    case False
    with Cons.prems split have "s = c # t \<or> s \<in> set ts"
      by simp
    with Cons.IH split False show ?thesis by auto
  qed
qed

lemma normalizeSegs_proper: "list_all properSegment (normalizeSegs False p)"
proof -
  have "list_all properSegment (foldl (normalizeStep False) [] (splitSlash p))"
    by (intro foldl_keeps_proper) (simp_all add: splitSlash_pieces)
  then show ?thesis
    by (simp add: normalizeSegs_def)
qed

lemma normalizeSegs_trailing_slash: "normalizeSegs a (p @ ''/'') = normalizeSegs a p"
proof -
  have "splitSlash (p @ CHR ''/'' # []) = splitSlash p @ [[]]"
    by (simp add: splitSlash_append del: append.simps)
  then show ?thesis
    by (simp add: normalizeSegs_def)
qed

lemma normalizeSegs_rooted:
  assumes "list_all properSegment segs"
  shows "normalizeSegs False (CHR ''/'' # joinSlash segs) = segs"
proof (cases "segs = []")
  case True
  then show ?thesis by (simp add: normalizeSegs_def)
next
  case False
  from assms have "\<forall>s\<in>set segs. CHR ''/'' \<notin> set s"
    by (simp add: list_all_iff properSegment_def)
  with False have "splitSlash (joinSlash segs) = segs"
    by (rule splitSlash_joinSlash)
  with assms show ?thesis
    by (simp add: normalizeSegs_def foldl_proper)
qed

lemma resolvedForm_rooted:
  "list_all properSegment segs \<Longrightarrow> resolvedForm (CHR ''/'' # joinSlash segs)"
  by (simp add: resolvedForm_def isAbsolute_def normalizeSegs_rooted)

section \<open>Paths: resolving and going back\<close>

lemma resolveLoop_reaches_cwd:
  assumes "isAbsolute wd"
  shows "\<exists>b. \<forall>acc. resolveLoop (ps @ [wd]) acc = (b @ CHR ''/'' # acc, True)"
proof (induction ps)
  case Nil
  from assms show ?case
    by (auto simp: isAbsolute_def)
next
  case (Cons p ps)
  then obtain b where b: "\<And>acc. resolveLoop (ps @ [wd]) acc = (b @ CHR ''/'' # acc, True)"
    by blast
  show ?case
  proof (cases "p = []")
    case True
    with b show ?thesis by auto
  next
    case False
    show ?thesis
    proof (cases "hd p = CHR ''/''")
      case True
      with False show ?thesis by auto
    next
      case no_root: False
      with False b have "\<forall>acc. resolveLoop ((p # ps) @ [wd]) acc =
                          ((b @ CHR ''/'' # p) @ CHR ''/'' # acc, True)"
        by simp
      then show ?thesis by blast
    qed
  qed
qed

text \<open>The text that \<^verbatim>\<open>path.resolve\<close> normalises, without its last slash.\<close>

lemma path_resolve_base:
  assumes "resolveLoop (rev args @ [wd]) [] = (b @ ''/'', True)"
  shows "path_resolve wd args = CHR ''/'' # joinSlash (normalizeSegs False b)"
  using assms by (simp add: path_resolve_def normalizeString_def normalizeSegs_trailing_slash)

lemma path_resolve_resolvedForm:
  assumes "isAbsolute wd"
  shows "resolvedForm (path_resolve wd args)"
proof -
  from resolveLoop_reaches_cwd [OF assms, of "rev args"]
  obtain b where "resolveLoop (rev args @ [wd]) [] = (b @ ''/'', True)"
    by auto
  then have "path_resolve wd args = CHR ''/'' # joinSlash (normalizeSegs False b)"
    by (rule path_resolve_base)
  then show ?thesis
    by (simp add: resolvedForm_rooted normalizeSegs_proper)
qed

lemma path_resolve_fixes_resolvedForm:
  assumes "resolvedForm t"
  shows "path_resolve wd [t] = t"
proof -
  from assms have "t \<noteq> []" and "hd t = CHR ''/''"
    and t: "t = CHR ''/'' # joinSlash (normalizeSegs False t)"
    by (simp_all add: resolvedForm_def isAbsolute_def)
  then have "resolveLoop (rev [t] @ [wd]) [] = (t @ ''/'', True)"
    by simp
  then have "path_resolve wd [t] = CHR ''/'' # joinSlash (normalizeSegs False t)"
    by (rule path_resolve_base)
  with t show ?thesis by simp
qed

lemma dropCommon_splits:
  "dropCommon xs ys = (up, down) \<Longrightarrow> \<exists>c. xs = c @ up \<and> ys = c @ down"
proof (induction xs ys rule: dropCommon.induct)
  case (1 x xs y ys)
  show ?case
  proof (cases "x = y")
    case True
    with 1 obtain c where "xs = c @ up \<and> ys = c @ down"
      by auto
    with True have "x # xs = (x # c) @ up \<and> y # ys = (x # c) @ down"
      by simp
    then show ?thesis by blast
  next
    case False
    with "1.prems" show ?thesis by auto
  qed
qed auto

text \<open>
  Normalising a base followed by a relative text of climbing and descending segments: the
  climbs remove what is left of the base after the common part, the descents are added.
\<close>

lemma climb_and_descend:
  assumes proper: "list_all properSegment (c @ up)" "list_all properSegment down"
    and base: "normalizeSegs False b = c @ up"
    and steps: "splitSlash e = pre @ replicate (length up) ''..'' @ down"
    and pre: "pre = [] \<or> pre = [''.'']"
  shows "normalizeSegs False (b @ CHR ''/'' # e) = c @ down"
proof -
  let ?step = "normalizeStep False"
  from base have st: "foldl ?step [] (splitSlash b) = rev up @ rev c"
    by (simp add: normalizeSegs_def rev_swap)
  from pre have skip: "foldl ?step (rev up @ rev c) pre = rev up @ rev c"
    by auto
  from proper have "list_all properSegment up"
    by simp
  then have climb: "foldl ?step (rev up @ rev c) (replicate (length up) ''..'') = rev c"
    by (rule foldl_dotdot)
  from proper(2) have descend: "foldl ?step (rev c) down = rev down @ rev c"
    by (rule foldl_proper)
  have "foldl ?step [] (splitSlash (b @ CHR ''/'' # e)) = rev down @ rev c"
    by (simp only: splitSlash_append steps foldl_append st skip climb descend)
  then show ?thesis
    by (simp add: normalizeSegs_def)
qed

lemma prefixDotSlash_pieces:
  assumes "segs \<noteq> []" and "\<forall>s\<in>set segs. CHR ''/'' \<notin> set s" and "hd segs \<noteq> []"
  shows "prefixDotSlash (joinSlash segs) \<noteq> []"
    and "hd (prefixDotSlash (joinSlash segs)) \<noteq> CHR ''/''"
    and "\<exists>pre. (pre = [] \<or> pre = [''.'']) \<and>
           splitSlash (prefixDotSlash (joinSlash segs)) = pre @ segs"
proof -
  from assms(1) obtain s ss where segs: "segs = s # ss"
    by (cases segs) simp_all
  with assms(3) obtain x xs where s: "s = x # xs"
    by (cases s) simp_all
  from segs assms(2) s have x: "x \<noteq> CHR ''/''"
    by auto
  from s segs obtain r where j: "joinSlash segs = x # r"
    by (cases ss) simp_all
  have split: "splitSlash (joinSlash segs) = segs"
    using assms(1,2) by (rule splitSlash_joinSlash)
  show "prefixDotSlash (joinSlash segs) \<noteq> []"
    by (simp add: j)
  show "hd (prefixDotSlash (joinSlash segs)) \<noteq> CHR ''/''"
    using x by (simp add: j)
  show "\<exists>pre. (pre = [] \<or> pre = [''.'']) \<and>
           splitSlash (prefixDotSlash (joinSlash segs)) = pre @ segs"
  proof (cases "x = CHR ''.''")
    case True
    then have "prefixDotSlash (joinSlash segs) = joinSlash segs"
      by (simp add: j)
    with split have "splitSlash (prefixDotSlash (joinSlash segs)) = [] @ segs"
      by simp
    then show ?thesis by blast
  next
    case False
    then have "prefixDotSlash (joinSlash segs) = ''.'' @ CHR ''/'' # joinSlash segs"
      by (simp add: j)
    then have "splitSlash (prefixDotSlash (joinSlash segs)) = splitSlash ''.'' @ segs"
      by (simp only: splitSlash_append split)
    then have "splitSlash (prefixDotSlash (joinSlash segs)) = [''.''] @ segs"
      by simp
    then show ?thesis by blast
  qed
qed

lemma path_resolve_two:
  assumes b: "\<forall>acc. resolveLoop ([d] @ [wd]) acc = (b @ CHR ''/'' # acc, True)"
  shows "path_resolve wd [d] = CHR ''/'' # joinSlash (normalizeSegs False b)"
    and "path_resolve wd [d, []] = CHR ''/'' # joinSlash (normalizeSegs False b)"
    and "e \<noteq> [] \<Longrightarrow> hd e \<noteq> CHR ''/'' \<Longrightarrow>
         path_resolve wd [d, e] = CHR ''/'' # joinSlash (normalizeSegs False (b @ CHR ''/'' # e))"
proof -
  from b have one: "resolveLoop (rev [d] @ [wd]) [] = (b @ ''/'', True)"
    by simp
  then show "path_resolve wd [d] = CHR ''/'' # joinSlash (normalizeSegs False b)"
    by (rule path_resolve_base)
  from one have "resolveLoop (rev [d, []] @ [wd]) [] = (b @ ''/'', True)"
    by simp
  then show "path_resolve wd [d, []] = CHR ''/'' # joinSlash (normalizeSegs False b)"
    by (rule path_resolve_base)
  assume "e \<noteq> []" and "hd e \<noteq> CHR ''/''"
  then have "resolveLoop (rev [d, e] @ [wd]) [] = resolveLoop ([d] @ [wd]) (e @ ''/'')"
    by simp
  with b have "resolveLoop (rev [d, e] @ [wd]) [] = ((b @ CHR ''/'' # e) @ ''/'', True)"
    by simp
  then show "path_resolve wd [d, e] =
             CHR ''/'' # joinSlash (normalizeSegs False (b @ CHR ''/'' # e))"
    by (rule path_resolve_base)
qed

text \<open>
  Resolving the relative path from \<open>d\<close> to \<open>t\<close> against \<open>d\<close> leads to \<open>t\<close>, with or
  without \<^verbatim>\<open>./\<close> in front.
\<close>

lemma relative_roundtrip:
  assumes "isAbsolute wd"
  shows "path_resolve wd [d, prefixDotSlash (path_relative wd d t)] = path_resolve wd [t]"
proof -
  from resolveLoop_reaches_cwd [OF assms, of "[d]"]
  obtain b where b: "\<forall>acc. resolveLoop ([d] @ [wd]) acc = (b @ CHR ''/'' # acc, True)"
    by blast
  note two = path_resolve_two [OF b]
  let ?F = "normalizeSegs False b"
  let ?from = "path_resolve wd [d]"
  let ?to = "path_resolve wd [t]"
  let ?T = "normalizeSegs False ?to"
  have F_proper: "list_all properSegment ?F"
    by (rule normalizeSegs_proper)
  have T_proper: "list_all properSegment ?T"
    by (rule normalizeSegs_proper)
  have from_segs: "normalizeSegs False ?from = ?F"
    by (simp only: two(1) normalizeSegs_rooted [OF F_proper])
  have "resolvedForm ?to"
    using assms by (rule path_resolve_resolvedForm)
  then have to_form: "CHR ''/'' # joinSlash ?T = ?to"
    by (simp only: resolvedForm_def)
  show ?thesis
  proof (cases "d = t \<or> ?from = ?to")
    case True
    then have "path_relative wd d t = []"
      by (auto simp: path_relative_def)
    moreover from True have "?from = ?to"
      by auto
    ultimately show ?thesis
      by (simp add: two(1,2))
  next
    case False
    obtain up down where ud: "dropCommon ?F ?T = (up, down)"
      by (cases "dropCommon ?F ?T")
    then obtain c where c: "?F = c @ up" "?T = c @ down"
      using dropCommon_splits by blast
    let ?L = "replicate (length up) ''..'' @ down"
    from False ud from_segs have rel: "path_relative wd d t = joinSlash ?L"
      by (simp add: path_relative_def Let_def)
    from c F_proper T_proper have up: "list_all properSegment (c @ up)"
      and down: "list_all properSegment down"
      by simp_all
    have nonempty: "?L \<noteq> []"
    proof
      assume "?L = []"
      then have "up = []" and "down = []"
        by simp_all
      with c have "?F = ?T" by simp
      with two(1) to_form have "?from = ?to" by simp
      with False show False by simp
    qed
    have slash_free: "\<forall>s\<in>set ?L. CHR ''/'' \<notin> set s"
    proof
      fix s
      assume "s \<in> set ?L"
      then consider "s = ''..''" | "s \<in> set down"
        by auto
      then show "CHR ''/'' \<notin> set s"
      proof cases
        case 1
        then show ?thesis by simp
      next
        case 2
        with down have "properSegment s"
          by (simp add: list_all_iff)
        then show ?thesis
          by (simp add: properSegment_def)
      qed
    qed
    from down nonempty have first: "hd ?L \<noteq> []"
      by (cases up; cases down) (simp_all add: properSegment_def)
    note e = prefixDotSlash_pieces(1,2) [OF nonempty slash_free first]
    from prefixDotSlash_pieces(3) [OF nonempty slash_free first]
    obtain pre where "(pre = [] \<or> pre = [''.'']) \<and>
        splitSlash (prefixDotSlash (joinSlash ?L)) = pre @ ?L" ..
    then have pre: "pre = [] \<or> pre = [''.'']"
      and split: "splitSlash (prefixDotSlash (joinSlash ?L)) = pre @ ?L"
      by (rule conjunct1, rule conjunct2)
    have "normalizeSegs False (b @ CHR ''/'' # prefixDotSlash (joinSlash ?L)) = c @ down"
      using up down c(1) split pre by (rule climb_and_descend)
    with two(3) [OF e] c(2) have
      "path_resolve wd [d, prefixDotSlash (joinSlash ?L)] = CHR ''/'' # joinSlash ?T"
      by simp
    with rel to_form show ?thesis
      by simp
  qed
qed

lemma path_join_index:
  assumes "resolvedForm p"
  shows "path_join [p, ''index.ts''] =
         CHR ''/'' # joinSlash (normalizeSegs False p @ [''index.ts''])"
proof -
  let ?segs = "normalizeSegs False p"
  from assms have abs: "isAbsolute p" and proper: "list_all properSegment ?segs"
    by (simp_all add: resolvedForm_def)
  have "normalizeSegs False (p @ CHR ''/'' # ''index.ts'') = ?segs @ [''index.ts'']"
  proof (rule climb_and_descend)
    show "list_all properSegment (?segs @ [])" using proper by simp
    show "list_all properSegment [''index.ts'']" by (simp add: properSegment_def)
    show "normalizeSegs False p = ?segs @ []" by simp
    show "splitSlash ''index.ts'' = [] @ replicate (length ([]::string list)) ''..'' @ [''index.ts'']"
      by simp
    show "[] = [] \<or> [] = [''.'']" by simp
  qed
  moreover have "joinSlash (?segs @ [''index.ts'']) \<noteq> []"
    by (cases "?segs = []") (simp_all add: joinSlash_snoc)
  moreover from abs have "p \<noteq> []" and "isAbsolute (p @ CHR ''/'' # ''index.ts'')"
    by (simp_all add: isAbsolute_def)
  ultimately show ?thesis
    by (simp add: path_join_def path_normalize_def normalizeString_def)
qed

lemma resolvedForm_index:
  assumes "resolvedForm p"
  shows "resolvedForm (path_join [p, ''index.ts''])"
proof -
  from assms have "list_all properSegment (normalizeSegs False p @ [''index.ts''])"
    by (simp add: resolvedForm_def properSegment_def)
  then show ?thesis
    by (simp only: path_join_index [OF assms] resolvedForm_rooted)
qed

lemma properSegment_extension:
  assumes "properSegment l" and "ext = ''.ts'' \<or> ext = ''.d.ts''"
  shows "properSegment (l @ ext)"
proof -
  from assms have long: "length (l @ ext) > 2" and slash: "CHR ''/'' \<notin> set (l @ ext)"
    by (auto simp: properSegment_def)
  have "l @ ext \<noteq> ''.''"
  proof
    assume "l @ ext = ''.''"
    then have "length (l @ ext) = length ''.''"
      by (rule arg_cong)
    with long show False by simp
  qed
  moreover have "l @ ext \<noteq> ''..''"
  proof
    assume "l @ ext = ''..''"
    then have "length (l @ ext) = length ''..''"
      by (rule arg_cong)
    with long show False by simp
  qed
  moreover from long have "l @ ext \<noteq> []"
    by auto
  ultimately show ?thesis
    using slash by (simp only: properSegment_def simp_thms)
qed

lemma resolvedForm_extension:
  assumes "resolvedForm p" and ext: "ext = ''.ts'' \<or> ext = ''.d.ts''"
  shows "resolvedForm (p @ ext)"
proof -
  let ?segs = "normalizeSegs False p"
  from assms have p: "p = CHR ''/'' # joinSlash ?segs"
    and proper: "list_all properSegment ?segs"
    by (simp_all add: resolvedForm_def)
  show ?thesis
  proof (cases ?segs rule: rev_cases)
    case Nil
    with p have "p @ ext = CHR ''/'' # joinSlash [ext]"
      by simp
    moreover from ext have "list_all properSegment [ext]"
      by (auto simp: properSegment_def)
    ultimately show ?thesis
      by (simp only: resolvedForm_rooted)
  next
    case (snoc ys l)
    with p have "p @ ext = CHR ''/'' # joinSlash (ys @ [l]) @ ext"
      by simp
    then have "p @ ext = CHR ''/'' # joinSlash (ys @ [l @ ext])"
      by (simp only: joinSlash_snoc_append)
    moreover from proper snoc ext have "list_all properSegment (ys @ [l @ ext])"
      by (simp add: properSegment_extension)
    ultimately show ?thesis
      by (simp only: resolvedForm_rooted)
  qed
qed

text \<open>The emitted relative specifier leads back to a target in resolved form.\<close>

lemma emitted_points_at:
  assumes "isAbsolute wd" and "resolvedForm t"
  shows "path_resolve wd [d, prefixDotSlash (path_relative wd d t)] = t"
  by (simp only: relative_roundtrip [OF assms(1)] path_resolve_fixes_resolvedForm [OF assms(2)])

section \<open>Relative specifiers: the order of the candidates\<close>

text \<open>
  C1. Let a specifier that starts with a dot be resolved against the directory of the
  referencing file, giving the path \<open>modulePath\<close>. If \<open>modulePath\<close> exists and is a
  directory, the emitted specifier leads to \<^verbatim>\<open>index.ts\<close> in that directory, also when
  \<open>modulePath\<close> with \<^verbatim>\<open>.ts\<close> exists. Otherwise, if \<open>modulePath\<close> with \<^verbatim>\<open>.ts\<close>
  exists, the emitted specifier leads to that file and not to the one with \<^verbatim>\<open>.d.ts\<close>,
  also when both exist. Otherwise, if \<open>modulePath\<close> with \<^verbatim>\<open>.d.ts\<close> exists, the emitted
  specifier leads to that file. In each case the emitted specifier is the path from the
  referencing directory to the target, with \<^verbatim>\<open>./\<close> in front unless it starts with a dot,
  and resolving it against the referencing directory gives the target.
\<close>

theorem relative_fallback_order:
  fixes h :: host and fileName specifier :: string
  defines "dirName \<equiv> path_dirname fileName"
  defines "modulePath \<equiv> path_resolve (cwd h) [dirName, specifier]"
  defines "emitted \<equiv> \<lambda>target. prefixDotSlash (path_relative (cwd h) dirName target)"
  assumes "isAbsolute (cwd h)" and "startsWith specifier ''.''"
  shows
    "(stat h modulePath = Some IsDirectory \<longrightarrow>
        rewriteSpecifier h fileName specifier = Inr (emitted (path_join [modulePath, ''index.ts''])) \<and>
        path_resolve (cwd h) [dirName, emitted (path_join [modulePath, ''index.ts''])] =
          path_join [modulePath, ''index.ts''] \<and>
        (modulePath \<noteq> ''/'' \<longrightarrow> path_join [modulePath, ''index.ts''] = modulePath @ ''/index.ts'')) \<and>
     (stat h modulePath \<noteq> Some IsDirectory \<and> existsSync h (modulePath @ ''.ts'') \<longrightarrow>
        rewriteSpecifier h fileName specifier = Inr (emitted (modulePath @ ''.ts'')) \<and>
        path_resolve (cwd h) [dirName, emitted (modulePath @ ''.ts'')] = modulePath @ ''.ts'' \<and>
        path_resolve (cwd h) [dirName, emitted (modulePath @ ''.ts'')] \<noteq> modulePath @ ''.d.ts'') \<and>
     (stat h modulePath \<noteq> Some IsDirectory \<and> \<not> existsSync h (modulePath @ ''.ts'') \<and>
      existsSync h (modulePath @ ''.d.ts'') \<longrightarrow>
        rewriteSpecifier h fileName specifier = Inr (emitted (modulePath @ ''.d.ts'')) \<and>
        path_resolve (cwd h) [dirName, emitted (modulePath @ ''.d.ts'')] = modulePath @ ''.d.ts'')"
proof -
  have form: "resolvedForm modulePath"
    unfolding modulePath_def using assms(4) by (rule path_resolve_resolvedForm)
  have points: "path_resolve (cwd h) [dirName, emitted t] = t" if "resolvedForm t" for t
    unfolding emitted_def using assms(4) that by (rule emitted_points_at)
  have dir: "rewriteSpecifier h fileName specifier =
             Inr (emitted (path_join [modulePath, ''index.ts'']))"
    if "stat h modulePath = Some IsDirectory"
    using that assms(5)
    by (simp add: rewriteSpecifier_def Let_def dirName_def modulePath_def emitted_def existsSync_def)
  have ts: "rewriteSpecifier h fileName specifier = Inr (emitted (modulePath @ ''.ts''))"
    if "stat h modulePath \<noteq> Some IsDirectory" and "existsSync h (modulePath @ ''.ts'')"
    using that assms(5)
    by (simp add: rewriteSpecifier_def Let_def dirName_def modulePath_def emitted_def existsSync_def)
  have dts: "rewriteSpecifier h fileName specifier = Inr (emitted (modulePath @ ''.d.ts''))"
    if "stat h modulePath \<noteq> Some IsDirectory" and "\<not> existsSync h (modulePath @ ''.ts'')"
      and "existsSync h (modulePath @ ''.d.ts'')"
    using that assms(5)
    by (simp add: rewriteSpecifier_def Let_def dirName_def modulePath_def emitted_def existsSync_def)
  have index: "path_join [modulePath, ''index.ts''] = modulePath @ ''/index.ts''"
    if "modulePath \<noteq> ''/''"
  proof -
    let ?segs = "normalizeSegs False modulePath"
    from form have p: "modulePath = CHR ''/'' # joinSlash ?segs"
      by (simp only: resolvedForm_def)
    with that have "?segs \<noteq> []"
      by auto
    then have "joinSlash (?segs @ [''index.ts'']) = joinSlash ?segs @ ''/index.ts''"
      by (simp add: joinSlash_snoc)
    then have "path_join [modulePath, ''index.ts''] = (CHR ''/'' # joinSlash ?segs) @ ''/index.ts''"
      by (simp add: path_join_index [OF form])
    with p show ?thesis
      by simp
  qed
  have different: "modulePath @ ''.ts'' \<noteq> modulePath @ ''.d.ts''"
    by simp
  show ?thesis
  proof (intro conjI impI)
    assume "stat h modulePath = Some IsDirectory"
    then show "rewriteSpecifier h fileName specifier =
               Inr (emitted (path_join [modulePath, ''index.ts'']))"
      by (rule dir)
  next
    show "path_resolve (cwd h) [dirName, emitted (path_join [modulePath, ''index.ts''])] =
          path_join [modulePath, ''index.ts'']"
      using form by (intro points resolvedForm_index)
  next
    assume "modulePath \<noteq> ''/''"
    then show "path_join [modulePath, ''index.ts''] = modulePath @ ''/index.ts''"
      by (rule index)
  next
    assume "stat h modulePath \<noteq> Some IsDirectory \<and> existsSync h (modulePath @ ''.ts'')"
    then show "rewriteSpecifier h fileName specifier = Inr (emitted (modulePath @ ''.ts''))"
      using ts by blast
  next
    show ts_points: "path_resolve (cwd h) [dirName, emitted (modulePath @ ''.ts'')] =
          modulePath @ ''.ts''"
      using form by (intro points resolvedForm_extension) simp_all
    show "path_resolve (cwd h) [dirName, emitted (modulePath @ ''.ts'')] \<noteq>
          modulePath @ ''.d.ts''"
      by (simp only: ts_points different not_False_eq_True)
  next
    assume "stat h modulePath \<noteq> Some IsDirectory \<and> \<not> existsSync h (modulePath @ ''.ts'') \<and>
            existsSync h (modulePath @ ''.d.ts'')"
    then show "rewriteSpecifier h fileName specifier = Inr (emitted (modulePath @ ''.d.ts''))"
      using dts by blast
  next
    show "path_resolve (cwd h) [dirName, emitted (modulePath @ ''.d.ts'')] =
          modulePath @ ''.d.ts''"
      using form by (intro points resolvedForm_extension) simp_all
  qed
qed

theorem relative_fallback_order_witness:
  "isAbsolute (cwd demoHost) \<and>
   startsWith ''./helpers'' ''.'' \<and>
   stat demoHost ''/repo/packages/core/src/helpers'' = Some IsDirectory \<and>
   existsSync demoHost ''/repo/packages/core/src/helpers.ts'' \<and>
   rewriteSpecifier demoHost ''/repo/packages/core/src/index.ts'' ''./helpers'' =
     Inr ''./helpers/index.ts'' \<and>
   path_resolve (cwd demoHost)
     [path_dirname ''/repo/packages/core/src/index.ts'', ''./helpers/index.ts''] =
     ''/repo/packages/core/src/helpers/index.ts'' \<and>
   startsWith ''./util'' ''.'' \<and>
   stat demoHost ''/repo/packages/core/src/util'' \<noteq> Some IsDirectory \<and>
   existsSync demoHost ''/repo/packages/core/src/util.ts'' \<and>
   existsSync demoHost ''/repo/packages/core/src/util.d.ts'' \<and>
   rewriteSpecifier demoHost ''/repo/packages/core/src/index.ts'' ''./util'' =
     Inr ''./util.ts'' \<and>
   path_resolve (cwd demoHost)
     [path_dirname ''/repo/packages/core/src/index.ts'', ''./util.ts''] =
     ''/repo/packages/core/src/util.ts'' \<and>
   startsWith ''./types'' ''.'' \<and>
   stat demoHost ''/repo/packages/core/src/types'' \<noteq> Some IsDirectory \<and>
   \<not> existsSync demoHost ''/repo/packages/core/src/types.ts'' \<and>
   existsSync demoHost ''/repo/packages/core/src/types.d.ts'' \<and>
   rewriteSpecifier demoHost ''/repo/packages/core/src/index.ts'' ''./types'' =
     Inr ''./types.d.ts'' \<and>
   path_resolve (cwd demoHost)
     [path_dirname ''/repo/packages/core/src/index.ts'', ''./types.d.ts''] =
     ''/repo/packages/core/src/types.d.ts''"
proof -
  let ?f = "''/repo/packages/core/src/index.ts''"
  let ?d = "path_dirname ?f"
  have a: "isAbsolute (cwd demoHost)"
    by code_simp
  have b1: "startsWith ''./helpers'' ''.''" and b2: "startsWith ''./util'' ''.''"
    and b3: "startsWith ''./types'' ''.''"
    by code_simp+
  have e1: "path_resolve (cwd demoHost) [?d, ''./helpers''] = ''/repo/packages/core/src/helpers''"
    and e2: "path_resolve (cwd demoHost) [?d, ''./util''] = ''/repo/packages/core/src/util''"
    and e3: "path_resolve (cwd demoHost) [?d, ''./types''] = ''/repo/packages/core/src/types''"
    by code_simp+
  have j1: "path_join [''/repo/packages/core/src/helpers'', ''index.ts''] =
            ''/repo/packages/core/src/helpers/index.ts''"
    by code_simp
  have x2: "''/repo/packages/core/src/util'' @ ''.ts'' = ''/repo/packages/core/src/util.ts''"
    and x3: "''/repo/packages/core/src/types'' @ ''.d.ts'' = ''/repo/packages/core/src/types.d.ts''"
    and y3: "''/repo/packages/core/src/types'' @ ''.ts'' = ''/repo/packages/core/src/types.ts''"
    by simp_all
  have m1: "prefixDotSlash (path_relative (cwd demoHost) ?d
              ''/repo/packages/core/src/helpers/index.ts'') = ''./helpers/index.ts''"
    and m2: "prefixDotSlash (path_relative (cwd demoHost) ?d
              ''/repo/packages/core/src/util.ts'') = ''./util.ts''"
    and m3: "prefixDotSlash (path_relative (cwd demoHost) ?d
              ''/repo/packages/core/src/types.d.ts'') = ''./types.d.ts''"
    by code_simp+
  have s1: "stat demoHost ''/repo/packages/core/src/helpers'' = Some IsDirectory"
    and t1: "existsSync demoHost ''/repo/packages/core/src/helpers.ts''"
    and s2: "stat demoHost ''/repo/packages/core/src/util'' \<noteq> Some IsDirectory"
    and t2: "existsSync demoHost ''/repo/packages/core/src/util.ts''"
    and u2: "existsSync demoHost ''/repo/packages/core/src/util.d.ts''"
    and s3: "stat demoHost ''/repo/packages/core/src/types'' \<noteq> Some IsDirectory"
    and t3: "\<not> existsSync demoHost ''/repo/packages/core/src/types.ts''"
    and u3: "existsSync demoHost ''/repo/packages/core/src/types.d.ts''"
    by code_simp+
  note r1 = relative_fallback_order [where h = demoHost and fileName = ?f
      and specifier = "''./helpers''", OF a b1, unfolded e1 j1 m1]
  note r2 = relative_fallback_order [where h = demoHost and fileName = ?f
      and specifier = "''./util''", OF a b2, unfolded e2 x2 m2]
  note r3 = relative_fallback_order [where h = demoHost and fileName = ?f
      and specifier = "''./types''", OF a b3, unfolded e3 x3 y3 m3]
  note k1 = r1 [THEN conjunct1, THEN mp, OF s1]
  note k2 = r2 [THEN conjunct2, THEN conjunct1, THEN mp, OF conjI [OF s2 t2]]
  note k3 = r3 [THEN conjunct2, THEN conjunct2, THEN mp, OF conjI [OF s3 conjI [OF t3 u3]]]
  show ?thesis
    by (intro conjI a b1 b2 b3 s1 t1 s2 t2 u2 s3 t3 u3
        k1 [THEN conjunct1] k1 [THEN conjunct2, THEN conjunct1]
        k2 [THEN conjunct1] k2 [THEN conjunct2, THEN conjunct1]
        k3 [THEN conjunct1] k3 [THEN conjunct2])
qed

end
